theory Spec2Isabelle
  imports Main "HOL-Library.Char_ord" "HOL-Library.List_Lexorder" "HOL-Library.Sublist"
begin

section \<open>Python values: exceptions and results\<close>

text \<open>
  The exceptions of the code: \<open>KeyError\<close>; \<open>OSError\<close> with its message (\<open>IOError\<close> is the
  same class in Python 3, and \<open>FileNotFoundError\<close>, \<open>FileExistsError\<close>,
  \<open>IsADirectoryError\<close> and \<open>NotADirectoryError\<close> are subclasses, so \<open>except IOError\<close>
  catches them all); \<open>SystemExit\<close> with the exit status, which \<open>sys.exit\<close> raises; and
  any other exception, by the name of its class. A computation that may raise returns a
  sum: \<open>Inl\<close> the exception, \<open>Inr\<close> the value.
\<close>

datatype py_exception =
    KeyError
  | OSError string
  | SystemExit int
  | Raised string

section \<open>Data frames\<close>

text \<open>
  A column of a pandas data frame has a dtype. \<open>pd.read_csv\<close> gives a column the dtype
  \<open>object\<close> when it holds text (each cell a Python \<open>str\<close>, or NaN where the field is
  missing) and a numeric dtype otherwise (each cell a number, or NaN). The constructor of a
  series is its dtype; a missing cell is \<open>None\<close>. The numeric type \<open>'n\<close> and the type \<open>'i\<close> of
  the row labels (the \<open>encounter_id\<close> index) are left open: the code below never looks
  into them.
\<close>

datatype 'n series = ObjectSeries "string option list" | NumericSeries "'n option list"

record 'n column =
  label :: string
  cells :: "'n series"

record ('i, 'n) dataframe =
  index :: "'i list"
  columns :: "'n column list"

text \<open>The shape of a frame: its row labels and its column labels, both in order, and the
  number of cells of every column.\<close>

fun series_length :: "'n series \<Rightarrow> nat" where
  "series_length (ObjectSeries cs) = length cs"
| "series_length (NumericSeries ns) = length ns"

definition shape :: "('i, 'n) dataframe \<Rightarrow> 'i list \<times> (string \<times> nat) list" where
  "shape df = (index df, map (\<lambda>c. (label c, series_length (cells c))) (columns df))"

text \<open>Whether each cell of a series is missing, whatever the dtype.\<close>

fun isna :: "'n series \<Rightarrow> bool list" where
  "isna (ObjectSeries cs) = map (\<lambda>c. c = None) cs"
| "isna (NumericSeries ns) = map (\<lambda>c. c = None) ns"

section \<open>The normalizer of \<open>fetch_diabetes\<close> (lines 56 to 69)\<close>

subsection \<open>\<open>DataFrame.replace\<close> with a dict\<close>

text \<open>
  \<open>df.replace({k1: v1, ...})\<close> replaces, in every column, each cell equal to a key by the
  key's value; all keys are looked up in the cell's old value. The keys here are strings,
  the values strings or NaN. A numeric cell and a missing cell equal no string, so only the
  text cells of object columns can change.
\<close>

type_synonym replace_dict = "(string \<times> string option) list"

definition replace_value :: "replace_dict \<Rightarrow> string option \<Rightarrow> string option" where
  "replace_value d c =
     (case c of
        None \<Rightarrow> None
      | Some s \<Rightarrow> (case map_of d s of None \<Rightarrow> Some s | Some v \<Rightarrow> v))"

fun replace_series :: "replace_dict \<Rightarrow> 'n series \<Rightarrow> 'n series" where
  "replace_series d (ObjectSeries cs) = ObjectSeries (map (replace_value d) cs)"
| "replace_series d (NumericSeries ns) = NumericSeries ns"

text \<open>
  After the replacement, pandas before 3.0 infers a better dtype for every object column
  (the silent downcasting that its option \<open>future.no_silent_downcasting\<close> turns off, and
  that pandas 3.0 removed): a column of text and NaN stays an object column as long as one
  cell holds text, and a column with at least one row whose cells are all NaN becomes a
  \<open>float64\<close> column of NaN. The pandas in use is not fixed by the source, so the behaviour
  is the parameter \<open>downcast\<close> of the model.
\<close>

fun infer_objects :: "'n series \<Rightarrow> 'n series" where
  "infer_objects (ObjectSeries cs) =
     (if cs \<noteq> [] \<and> list_all (\<lambda>c. c = None) cs
      then NumericSeries (map (\<lambda>c. None) cs)
      else ObjectSeries cs)"
| "infer_objects (NumericSeries ns) = NumericSeries ns"

definition replace_column :: "bool \<Rightarrow> replace_dict \<Rightarrow> 'n column \<Rightarrow> 'n column" where
  "replace_column downcast d c =
     c\<lparr>cells := (if downcast then infer_objects (replace_series d (cells c))
                  else replace_series d (cells c))\<rparr>"

definition df_replace ::
  "bool \<Rightarrow> replace_dict \<Rightarrow> ('i, 'n) dataframe \<Rightarrow> ('i, 'n) dataframe" where
  "df_replace downcast d df = df\<lparr>columns := map (replace_column downcast d) (columns df)\<rparr>"

text \<open>The three dicts of lines 57 to 65, in the order of the source.\<close>

definition target_map :: replace_dict where
  "target_map = [(''NO'', Some ''1''), (''<30'', Some ''2''), (''>30'', Some ''3'')]"

definition null_map :: replace_dict where
  "null_map = [(''?'', None)]"

definition age_map :: replace_dict where
  "age_map =
     [(''[0-10)'', Some ''1''), (''[10-20)'', Some ''2''), (''[20-30)'', Some ''3''),
      (''[30-40)'', Some ''4''), (''[40-50)'', Some ''5''), (''[50-60)'', Some ''6''),
      (''[60-70)'', Some ''7''), (''[70-80)'', Some ''8''), (''[80-90)'', Some ''9''),
      (''[90-100)'', Some ''10'')]"

definition remap :: "bool \<Rightarrow> ('i, 'n) dataframe \<Rightarrow> ('i, 'n) dataframe" where
  "remap downcast df =
     df_replace downcast age_map
       (df_replace downcast null_map (df_replace downcast target_map df))"

subsection \<open>Filling the missing cells of the object columns\<close>

text \<open>
  \<open>Series.mode()\<close> drops the missing cells, and returns the values that occur most often,
  sorted in ascending order (for strings, Python's order: lexicographic by code point). It
  is empty when no cell is observed. Indexing an empty series at \<open>0\<close> raises \<open>KeyError\<close>
  (an \<open>IndexError\<close> in old versions of pandas; the model has the one name for both).
\<close>

definition dropna :: "'a option list \<Rightarrow> 'a list" where
  "dropna cs = List.map_filter (\<lambda>c. c) cs"

definition mode :: "string option list \<Rightarrow> string list" where
  "mode cs =
     (let vs = dropna cs
      in sort (remdups (filter (\<lambda>v. \<forall>w \<in> set vs. count_list vs w \<le> count_list vs v) vs)))"

definition fillna :: "string \<Rightarrow> string option list \<Rightarrow> string option list" where
  "fillna v cs = map (\<lambda>c. case c of None \<Rightarrow> Some v | Some s \<Rightarrow> Some s) cs"

text \<open>The body of the loop of lines 68 and 69, on one column: \<open>select_dtypes(include=object)\<close>
  leaves the numeric columns out.\<close>

fun fill_series :: "'n series \<Rightarrow> py_exception + 'n series" where
  "fill_series (ObjectSeries cs) =
     (case mode cs of
        [] \<Rightarrow> Inl KeyError
      | v # _ \<Rightarrow> Inr (ObjectSeries (fillna v cs)))"
| "fill_series (NumericSeries ns) = Inr (NumericSeries ns)"

text \<open>The loop, over the columns in their order; the first exception ends it.\<close>

fun fill_columns :: "'n column list \<Rightarrow> py_exception + 'n column list" where
  "fill_columns [] = Inr []"
| "fill_columns (c # cs) =
     (case fill_series (cells c) of
        Inl e \<Rightarrow> Inl e
      | Inr s \<Rightarrow>
          (case fill_columns cs of
             Inl e \<Rightarrow> Inl e
           | Inr cs' \<Rightarrow> Inr (c\<lparr>cells := s\<rparr> # cs')))"

definition fill_na :: "('i, 'n) dataframe \<Rightarrow> py_exception + ('i, 'n) dataframe" where
  "fill_na df =
     (case fill_columns (columns df) of
        Inl e \<Rightarrow> Inl e
      | Inr cs \<Rightarrow> Inr (df\<lparr>columns := cs\<rparr>))"

definition normalize ::
  "bool \<Rightarrow> ('i, 'n) dataframe \<Rightarrow> py_exception + ('i, 'n) dataframe" where
  "normalize downcast df = fill_na (remap downcast df)"

text \<open>
  The three look-ups of \<open>remap\<close> on one cell, and on one series. With \<open>downcast\<close>, the
  dtype is inferred after each of the three calls; a missing cell stays missing, so what the
  three inferences give is what one inference at the end gives.
\<close>

definition remap_value :: "string option \<Rightarrow> string option" where
  "remap_value c = replace_value age_map (replace_value null_map (replace_value target_map c))"

fun remap_series :: "bool \<Rightarrow> 'n series \<Rightarrow> 'n series" where
  "remap_series downcast (NumericSeries ns) = NumericSeries ns"
| "remap_series downcast (ObjectSeries cs) =
     (if downcast then infer_objects (ObjectSeries (map remap_value cs))
      else ObjectSeries (map remap_value cs))"

section \<open>The fetch stage of \<open>fetch_diabetes\<close> (lines 45 to 54)\<close>

text \<open>
  A path is the list of its components; \<open>os.path.join(p, name)\<close> appends a component and
  \<open>os.path.dirname\<close> drops the last one. The source URL is a string, and
  \<open>os.path.basename\<close> of a string is what follows its last slash.
\<close>

type_synonym path = "string list"

definition DIABETES_URL :: string where
  "DIABETES_URL =
     ''https://raw.githubusercontent.com/angelmanzur/Diabetes_130Hospitals/master/dataset_diabetes/diabetic_data.csv''"

definition basename :: "string \<Rightarrow> string" where
  "basename p = rev (takeWhile (\<lambda>c. c \<noteq> CHR ''/'') (rev p))"

text \<open>\<open>DATA_HOME_DEFAULT\<close>, from the absolute path of the module's file.\<close>

definition DATA_HOME_DEFAULT :: "path \<Rightarrow> path" where
  "DATA_HOME_DEFAULT module_file = butlast module_file @ [''..'', ''data'', ''raw'']"

text \<open>Line 46: \<open>data_home or DATA_HOME_DEFAULT\<close> takes the default for \<open>None\<close> and for the
  empty path.\<close>

definition cache_path :: "path \<Rightarrow> path option \<Rightarrow> path" where
  "cache_path module_file data_home =
     (case data_home of
        None \<Rightarrow> DATA_HOME_DEFAULT module_file
      | Some p \<Rightarrow> if p = [] then DATA_HOME_DEFAULT module_file else p)
     @ [basename DIABETES_URL]"

text \<open>
  The world outside the program: the regular files with their contents, the directories,
  what each URL serves, and the log of the URLs requested so far. A call returns its result,
  a value or an exception, with the world it leaves.
\<close>

record 'c world =
  files :: "path \<rightharpoonup> 'c"
  dirs :: "path set"
  remote :: "string \<rightharpoonup> 'c"
  requests :: "string list"

definition isfile :: "'c world \<Rightarrow> path \<Rightarrow> bool" where
  "isfile w p = (files w p \<noteq> None)"

text \<open>
  \<open>pd.read_csv(source, index_col='encounter_id')\<close>: the parser of the contents is the
  parameter \<open>parse\<close>; it may raise. Reading a URL is a request to the remote source.
\<close>

definition read_csv_file ::
  "('c \<Rightarrow> py_exception + 'df) \<Rightarrow> path \<Rightarrow> 'c world \<Rightarrow> (py_exception + 'df) \<times> 'c world" where
  "read_csv_file parse p w =
     (case files w p of
        None \<Rightarrow> (Inl (OSError ''No such file or directory''), w)
      | Some c \<Rightarrow> (parse c, w))"

definition read_csv_url ::
  "('c \<Rightarrow> py_exception + 'df) \<Rightarrow> string \<Rightarrow> 'c world \<Rightarrow> (py_exception + 'df) \<times> 'c world" where
  "read_csv_url parse url w =
     (let w' = w\<lparr>requests := requests w @ [url]\<rparr>
      in case remote w url of
           None \<Rightarrow> (Inl (Raised ''URLError''), w')
         | Some c \<Rightarrow> (parse c, w'))"

text \<open>
  \<open>os.makedirs(d, exist_ok=True)\<close>: nothing happens when \<open>d\<close> is a directory; it raises when
  \<open>d\<close> or one of its ancestors is a regular file; otherwise \<open>d\<close> and its missing ancestors
  become directories.
\<close>

definition makedirs :: "path \<Rightarrow> 'c world \<Rightarrow> (py_exception + unit) \<times> 'c world" where
  "makedirs d w =
     (if d \<in> dirs w then (Inr (), w)
      else if list_ex (\<lambda>p. files w p \<noteq> None) (prefixes d)
        then (Inl (OSError ''File exists''), w)
      else (Inr (), w\<lparr>dirs := dirs w \<union> set (prefixes d)\<rparr>))"

text \<open>
  \<open>df.to_csv(p)\<close>: the contents written are the parameter \<open>render\<close> of the frame. It raises
  when \<open>p\<close> is a directory or the directory of \<open>p\<close> does not exist.
\<close>

definition to_csv ::
  "('df \<Rightarrow> 'c) \<Rightarrow> 'df \<Rightarrow> path \<Rightarrow> 'c world \<Rightarrow> (py_exception + unit) \<times> 'c world" where
  "to_csv render df p w =
     (if p \<in> dirs w then (Inl (OSError ''Is a directory''), w)
      else if butlast p \<notin> dirs w then (Inl (OSError ''No such file or directory''), w)
      else (Inr (), w\<lparr>files := (files w)(p \<mapsto> render df)\<rparr>))"

text \<open>Lines 45 to 54.\<close>

definition fetch_table ::
  "('c \<Rightarrow> py_exception + 'df) \<Rightarrow> ('df \<Rightarrow> 'c) \<Rightarrow> path \<Rightarrow> path option \<Rightarrow> bool \<Rightarrow> 'c world
     \<Rightarrow> (py_exception + 'df) \<times> 'c world" where
  "fetch_table parse render module_file data_home cache w =
     (let data_url = DIABETES_URL;
          cache_path = cache_path module_file data_home
      in if cache \<and> isfile w cache_path then read_csv_file parse cache_path w
         else
           (case read_csv_url parse data_url w of
              (Inl e, w1) \<Rightarrow> (Inl e, w1)
            | (Inr df, w1) \<Rightarrow>
                if cache then
                  (case makedirs (butlast cache_path) w1 of
                     (Inl e, w2) \<Rightarrow> (Inl e, w2)
                   | (Inr u, w2) \<Rightarrow>
                       (case to_csv render df cache_path w2 of
                          (Inl e, w3) \<Rightarrow> (Inl e, w3)
                        | (Inr u', w3) \<Rightarrow> (Inr df, w3)))
                else (Inr df, w1)))"

text \<open>
  The whole function. \<open>standardize_dataset\<close> is imported from another module; it is the
  parameter \<open>standardize\<close>, called with the arguments of lines 71 to 74.
\<close>

definition fetch_diabetes ::
  "('c \<Rightarrow> py_exception + ('i, 'n) dataframe) \<Rightarrow> (('i, 'n) dataframe \<Rightarrow> 'c) \<Rightarrow> bool \<Rightarrow>
   (('i, 'n) dataframe \<Rightarrow> string list \<Rightarrow> string \<Rightarrow> 'u \<Rightarrow> 'd \<Rightarrow> bool \<Rightarrow> bool \<Rightarrow> py_exception + 'r) \<Rightarrow>
   path \<Rightarrow> path option \<Rightarrow> bool \<Rightarrow> 'u \<Rightarrow> 'd \<Rightarrow> bool \<Rightarrow> bool \<Rightarrow> 'c world
     \<Rightarrow> (py_exception + 'r) \<times> 'c world" where
  "fetch_diabetes parse render downcast standardize module_file data_home cache usecols
     dropcols numeric_only dropna_rows w =
     (case fetch_table parse render module_file data_home cache w of
        (Inl e, w') \<Rightarrow> (Inl e, w')
      | (Inr df, w') \<Rightarrow>
          (case normalize downcast df of
             Inl e \<Rightarrow> (Inl e, w')
           | Inr df' \<Rightarrow>
               (standardize df'
                  [''admission_type_id'', ''discharge_disposition_id'', ''admission_source_id'']
                  ''readmitted'' usecols dropcols numeric_only dropna_rows, w')))"

section \<open>The constructor of \<open>DiabetesDataset\<close>\<close>

text \<open>
  The arguments of the constructor. The types of the elements of \<open>privileged_classes\<close>, of
  \<open>custom_preprocessing\<close> and of \<open>metadata\<close> are left open; the default of \<open>metadata\<close> is
  the module's table \<open>default_mappings\<close>, a parameter here.
\<close>

record ('p, 'f, 'm) init_args =
  label_name :: string
  favorable_classes :: "string list"
  protected_attribute_names :: "string list"
  privileged_classes :: "'p list"
  instance_weights_name :: "string option"
  categorical_features :: "string list"
  features_to_keep :: "string list"
  features_to_drop :: "string list"
  na_values :: "string list"
  custom_preprocessing :: "'f option"
  metadata :: 'm

definition default_args :: "'m \<Rightarrow> ('p, 'f, 'm) init_args" where
  "default_args default_mappings =
     \<lparr>label_name = ''readmitted '',
      favorable_classes = [''<30''],
      protected_attribute_names =
        [''admission_type_id'', ''discharge_disposition_id'', ''admission_source_id''],
      privileged_classes = [],
      instance_weights_name = None,
      categorical_features =
        [''race'', ''gender'', ''age'', ''weight'', ''payer_code'', ''medical_specialty'',
         ''diag_1'', ''diag_2'', ''diag_3'', ''max_glu_serum'', ''A1Cresult'', ''metformin'',
         ''repaglinide'', ''nateglinide'', ''chlorpropamide'', ''glimepiride'',
         ''acetohexamide'', ''glipizide'', ''glyburide'', ''tolbutamide'',
         ''pioglitazone'', ''rosiglitazone'', ''acarbose'', ''miglitol'', ''troglitazone'',
         ''tolazamide'', ''examide'', ''citoglipton'', ''insulin'',
         ''glyburide-metformin'', ''glipizide-metformin'',
         ''glimepiride-pioglitazone'', ''metformin-rosiglitazone'',
         ''metformin-pioglitazone'', ''change'', ''diabetesMed'', ''readmitted''],
      features_to_keep = [],
      features_to_drop = [''weight''],
      na_values = [''?''],
      custom_preprocessing = None,
      metadata = default_mappings\<rparr>"

text \<open>
  \<open>os.path.abspath\<close> of an absolute path normalises it: \<open>..\<close> drops the component before
  it (at the root it stays at the root), \<open>.\<close> and the empty component vanish. A path is
  printed with a slash before each component.
\<close>

definition normpath :: "path \<Rightarrow> path" where
  "normpath p =
     rev (foldl (\<lambda>st c. if c = ''..'' then tl st
                         else if c = ''.'' \<or> c = [] then st
                         else c # st) [] p)"

definition path_str :: "path \<Rightarrow> string" where
  "path_str p = concat (map (\<lambda>c. CHR ''/'' # c) p)"

definition filepath :: "path \<Rightarrow> path" where
  "filepath module_file =
     butlast module_file @ [''..'', ''data'', ''raw'', ''diabetes'', ''diabetic_data.csv'']"

text \<open>The five calls of \<open>print\<close> in the handler, one string each (\<open>print\<close> ends each with a
  newline of its own); \<open>err\<close> is the message of the \<open>IOError\<close>.\<close>

definition instructions :: "path \<Rightarrow> string \<Rightarrow> string list" where
  "instructions module_file err =
     [''IOError: '' @ err,
      ''To use this class, please download the following file:'',
      [CHR 0x0A, CHR 0x09] @
        ''https://archive.ics.uci.edu/ml/machine-learning-databases/00296/dataset_diabetes.zip'',
      CHR 0x0A # ''unzip it and place the files, as-is, in the folder:'',
      [CHR 0x0A, CHR 0x09] @
        path_str (normpath (module_file @ [''..'', ''..'', ''data'', ''raw'', ''diabetes''])) @
        [CHR 0x0A]]"

text \<open>
  The constructor. \<open>pd.read_csv(filepath, sep=';', na_values=na_values)\<close> is the parameter
  \<open>read_csv\<close>, the constructor of the base class \<open>StandardDataset\<close> the parameter
  \<open>super_init\<close>; \<open>out\<close> is what has been printed so far. Only an \<open>IOError\<close> is caught.
\<close>

definition DiabetesDataset_init ::
  "path \<Rightarrow> (path \<Rightarrow> string \<Rightarrow> string list \<Rightarrow> py_exception + 'df) \<Rightarrow>
   ('df \<Rightarrow> ('p, 'f, 'm) init_args \<Rightarrow> py_exception + 'ds) \<Rightarrow>
   ('p, 'f, 'm) init_args \<Rightarrow> string list \<Rightarrow> (py_exception + 'ds) \<times> string list" where
  "DiabetesDataset_init module_file read_csv super_init args out =
     (case read_csv (filepath module_file) '';'' (na_values args) of
        Inl (OSError err) \<Rightarrow> (Inl (SystemExit 1), out @ instructions module_file err)
      | Inl e \<Rightarrow> (Inl e, out)
      | Inr df \<Rightarrow> (super_init df args, out))"

section \<open>Notions of the specification\<close>

text \<open>The raw tokens of the three remaps, and a frame that is already normalized: no raw
  token and no missing cell in an object column.\<close>

definition raw_tokens :: "string list" where
  "raw_tokens = map fst (target_map @ null_map @ age_map)"

definition already_normalized :: "('i, 'n) dataframe \<Rightarrow> bool" where
  "already_normalized df =
     (\<forall>c \<in> set (columns df).
        case cells c of
          NumericSeries ns \<Rightarrow> True
        | ObjectSeries cs \<Rightarrow>
            (\<forall>x \<in> set cs. case x of None \<Rightarrow> False | Some s \<Rightarrow> s \<notin> set raw_tokens))"

text \<open>The decimal numeral of a number, and the \<open>k\<close>-th decade bucket \<open>[10(k-1)-10k)\<close>.\<close>

fun decimal :: "nat \<Rightarrow> string" where
  "decimal n =
     (if n < 10 then [''0123456789'' ! n]
      else decimal (n div 10) @ [''0123456789'' ! (n mod 10)])"

declare decimal.simps [simp del]

definition age_bucket :: "nat \<Rightarrow> string" where
  "age_bucket k = ''['' @ decimal (10 * (k - 1)) @ ''-'' @ decimal (10 * k) @ '')''"

text \<open>The most frequent observed value with ties broken by the first value met in the order
  of the rows.\<close>

definition first_encountered_mode :: "string option list \<Rightarrow> string option" where
  "first_encountered_mode cs =
     (let vs = dropna cs
      in List.find (\<lambda>v. \<forall>w \<in> set vs. count_list vs w \<le> count_list vs v) vs)"

section \<open>Example inputs\<close>

definition race_frame :: "(int, int) dataframe" where
  "race_frame =
     \<lparr>index = [2278392, 149190, 64410],
      columns =
        [\<lparr>label = ''race'',
           cells = ObjectSeries [Some ''Caucasian'', Some ''AfricanAmerican'', Some ''?'']\<rparr>,
         \<lparr>label = ''age'',
           cells = ObjectSeries [Some ''[0-10)'', Some ''[10-20)'', Some ''[10-20)'']\<rparr>,
         \<lparr>label = ''time_in_hospital'', cells = NumericSeries [Some 1, Some 3, None]\<rparr>,
         \<lparr>label = ''readmitted'',
           cells = ObjectSeries [Some ''NO'', Some ''>30'', Some ''<30'']\<rparr>]\<rparr>"

definition race_frame_normalized :: "(int, int) dataframe" where
  "race_frame_normalized =
     \<lparr>index = [2278392, 149190, 64410],
      columns =
        [\<lparr>label = ''race'',
           cells = ObjectSeries
             [Some ''Caucasian'', Some ''AfricanAmerican'', Some ''AfricanAmerican'']\<rparr>,
         \<lparr>label = ''age'', cells = ObjectSeries [Some ''1'', Some ''2'', Some ''2'']\<rparr>,
         \<lparr>label = ''time_in_hospital'', cells = NumericSeries [Some 1, Some 3, None]\<rparr>,
         \<lparr>label = ''readmitted'', cells = ObjectSeries [Some ''1'', Some ''3'', Some ''2'']\<rparr>]\<rparr>"

definition unknown_weight_frame :: "(int, int) dataframe" where
  "unknown_weight_frame =
     \<lparr>index = [2278392, 149190],
      columns = [\<lparr>label = ''weight'', cells = ObjectSeries [Some ''?'', Some ''?'']\<rparr>]\<rparr>"

definition no_rows_frame :: "(int, int) dataframe" where
  "no_rows_frame = \<lparr>index = [], columns = [\<lparr>label = ''race'', cells = ObjectSeries []\<rparr>]\<rparr>"

text \<open>Worlds for the fetch stage, with the contents of a file standing for its table:
  nothing cached, and the table cached under the default directory of the module
  \<open>/pkg/aif360/sklearn/datasets/diabetes_dataset.py\<close>.\<close>

definition sklearn_module :: path where
  "sklearn_module = [''pkg'', ''aif360'', ''sklearn'', ''datasets'', ''diabetes_dataset.py'']"

definition fresh_world :: "string world" where
  "fresh_world =
     \<lparr>files = Map.empty, dirs = {[]},
      remote = [DIABETES_URL \<mapsto> ''remote table''], requests = []\<rparr>"

definition cached_world :: "string world" where
  "cached_world =
     \<lparr>files = [cache_path sklearn_module None \<mapsto> ''cached table''],
      dirs = set (prefixes (DATA_HOME_DEFAULT sklearn_module)),
      remote = [DIABETES_URL \<mapsto> ''remote table''], requests = []\<rparr>"

definition legacy_module :: path where
  "legacy_module = [''pkg'', ''aif360'', ''datasets'', ''diabetes_dataset.py'']"

section \<open>Lemmas on the remaps\<close>

lemma series_length_replace_series: "series_length (replace_series d s) = series_length s"
  by (cases s) simp_all

lemma series_length_infer_objects: "series_length (infer_objects s) = series_length s"
  by (cases s) simp_all

lemma shape_df_replace: "shape (df_replace b d df) = shape df"
  by (simp add: shape_def df_replace_def replace_column_def
      series_length_replace_series series_length_infer_objects)

lemma shape_remap: "shape (remap b df) = shape df"
  by (simp add: remap_def shape_df_replace)

lemma replace_value_None: "replace_value d None = None"
  by (simp add: replace_value_def)

lemma infer_objects_replace_series:
  "infer_objects (replace_series d (infer_objects s)) = infer_objects (replace_series d s)"
  by (cases s) (auto simp: list_all_iff replace_value_None)

lemma remap_value_fun:
  "remap_value =
     (\<lambda>x. replace_value age_map (replace_value null_map (replace_value target_map x)))"
  by (simp add: fun_eq_iff remap_value_def)

lemma remap_column_fused:
  "replace_column b age_map (replace_column b null_map (replace_column b target_map c)) =
   c\<lparr>cells := remap_series b (cells c)\<rparr>"
proof (cases "cells c")
  case (NumericSeries ns)
  then show ?thesis by (simp add: replace_column_def)
next
  case (ObjectSeries cs)
  have "infer_objects (replace_series age_map (infer_objects (replace_series null_map
          (infer_objects (replace_series target_map (ObjectSeries cs :: 'a series)))))) =
        infer_objects (ObjectSeries (map remap_value cs))"
    by (simp only: infer_objects_replace_series) (simp add: remap_value_fun comp_def)
  with ObjectSeries show ?thesis
    by (simp add: replace_column_def remap_value_fun comp_def)
qed

lemma remap_columns:
  "remap b df =
     df\<lparr>columns := map (\<lambda>c. c\<lparr>cells := remap_series b (cells c)\<rparr>) (columns df)\<rparr>"
  by (simp add: remap_def df_replace_def remap_column_fused comp_def)

lemma remap_value_Some:
  "remap_value (Some s) =
     (case map_of (target_map @ null_map @ age_map) s of None \<Rightarrow> Some s | Some v \<Rightarrow> v)"
  by (simp add: remap_value_def replace_value_def target_map_def null_map_def age_map_def)

lemma remap_value_unchanged:
  assumes "s \<notin> set raw_tokens"
  shows "remap_value (Some s) = Some s"
proof -
  have "s \<notin> fst ` set (target_map @ null_map @ age_map)"
    using assms by (simp add: raw_tokens_def image_Un)
  then have "map_of (target_map @ null_map @ age_map) s = None"
    by (rule map_of_eq_None_iff [THEN iffD2])
  then show ?thesis by (simp only: remap_value_Some option.case)
qed

lemma remap_series_normalized:
  assumes "\<forall>x \<in> set cs. case x of None \<Rightarrow> False | Some s \<Rightarrow> s \<notin> set raw_tokens"
  shows "remap_series b (ObjectSeries cs) = ObjectSeries cs"
proof -
  have "map remap_value cs = cs"
    using assms by (intro map_idI) (auto split: option.splits simp: remap_value_unchanged)
  moreover have "cs = [] \<or> \<not> list_all (\<lambda>c. c = None) cs"
    using assms by (cases cs) (auto split: option.splits)
  ultimately show ?thesis by auto
qed

lemma remap_normalized:
  assumes "already_normalized df"
  shows "remap b df = df"
proof -
  have "map (\<lambda>c. c\<lparr>cells := remap_series b (cells c)\<rparr>) (columns df) = columns df"
  proof (intro map_idI)
    fix c assume c: "c \<in> set (columns df)"
    have "remap_series b (cells c) = cells c"
    proof (cases "cells c")
      case (NumericSeries ns)
      then show ?thesis by simp
    next
      case (ObjectSeries cs)
      with assms c
      have "\<forall>x \<in> set cs. case x of None \<Rightarrow> False | Some s \<Rightarrow> s \<notin> set raw_tokens"
        by (force simp: already_normalized_def)
      then show ?thesis
        by (simp only: ObjectSeries remap_series_normalized)
    qed
    then show "c\<lparr>cells := remap_series b (cells c)\<rparr> = c" by simp
  qed
  then show ?thesis by (simp add: remap_columns)
qed

section \<open>Lemmas on the mode and on the filling loop\<close>

lemma set_dropna: "set (dropna cs) = {s. Some s \<in> set cs}"
  by (induction cs) (auto simp: dropna_def List.map_filter_def)

lemma dropna_empty_iff: "dropna cs = [] \<longleftrightarrow> (\<forall>c \<in> set cs. c = None)"
proof -
  have "dropna cs = [] \<longleftrightarrow> set (dropna cs) = {}" by simp
  also have "\<dots> \<longleftrightarrow> (\<forall>c \<in> set cs. c = None)"
    unfolding set_dropna by (auto simp: all_conj_distrib) (metis not_Some_eq)
  finally show ?thesis .
qed

lemma ex_most_frequent:
  assumes "vs \<noteq> []"
  shows "\<exists>v \<in> set vs. \<forall>w \<in> set vs. count_list vs w \<le> count_list vs v"
proof -
  let ?A = "count_list vs ` set vs"
  have fin: "finite ?A" and ne: "?A \<noteq> {}" using assms by auto
  from Max_in [OF fin ne] obtain v where v: "v \<in> set vs" "count_list vs v = Max ?A" by auto
  have "\<forall>w \<in> set vs. count_list vs w \<le> count_list vs v"
    using v Max_ge [OF fin] by auto
  with v show ?thesis by blast
qed

lemma set_mode:
  "set (mode cs) =
     {v \<in> set (dropna cs).
        \<forall>w \<in> set (dropna cs). count_list (dropna cs) w \<le> count_list (dropna cs) v}"
  by (auto simp: mode_def Let_def)

lemma mode_empty_iff: "mode cs = [] \<longleftrightarrow> dropna cs = []"
proof
  assume "mode cs = []"
  then have "set (mode cs) = {}" by simp
  then show "dropna cs = []"
    using ex_most_frequent [of "dropna cs"] unfolding set_mode by blast
next
  assume "dropna cs = []"
  then show "mode cs = []" by (simp add: mode_def)
qed

lemma sorted_mode: "sorted (mode cs)"
  by (simp add: mode_def Let_def)

lemma mode_Cons:
  assumes "mode cs = v # vs"
  shows "v \<in> set (dropna cs)"
    and "count_list (dropna cs) w \<le> count_list (dropna cs) v"
    and "count_list (dropna cs) w = count_list (dropna cs) v \<Longrightarrow> v \<le> w"
proof -
  let ?n = "count_list (dropna cs)"
  have "v \<in> set (mode cs)" using assms by simp
  then have v: "v \<in> set (dropna cs)" and mx: "\<forall>u \<in> set (dropna cs). ?n u \<le> ?n v"
    unfolding set_mode by auto
  show "v \<in> set (dropna cs)" by (rule v)
  show le: "?n w \<le> ?n v" for w
  proof (cases "w \<in> set (dropna cs)")
    case True with mx show ?thesis by blast
  next
    case False then show ?thesis by (simp add: count_list_0_iff)
  qed
  assume eq: "?n w = ?n v"
  have "0 < ?n v" using v by (simp add: count_list_0_iff zero_less_iff_neq_zero)
  with eq have "w \<in> set (dropna cs)" by (metis count_list_0_iff less_numeral_extra(3))
  moreover have "\<forall>u \<in> set (dropna cs). ?n u \<le> ?n w" using eq mx by simp
  ultimately have "w \<in> set (mode cs)" unfolding set_mode by blast
  then have "w = v \<or> w \<in> set vs" using assms by simp
  moreover have "\<forall>u \<in> set vs. v \<le> u" using sorted_mode [of cs] assms by simp
  ultimately show "v \<le> w" by auto
qed

lemma fill_columns_Inr:
  "fill_columns cs = Inr cs' \<Longrightarrow>
   list_all2 (\<lambda>c c'. \<exists>s. fill_series (cells c) = Inr s \<and> c' = c\<lparr>cells := s\<rparr>) cs cs'"
  by (induction cs arbitrary: cs') (auto split: sum.splits)

lemma fill_series_Inl: "fill_series s = Inl e \<Longrightarrow> e = KeyError"
  by (cases s) (auto split: list.splits)

lemma fill_columns_Inl: "fill_columns cs = Inl e \<Longrightarrow> e = KeyError"
  by (induction cs) (auto split: sum.splits dest: fill_series_Inl)

lemma fill_columns_fails:
  "c \<in> set cs \<Longrightarrow> fill_series (cells c) = Inl e \<Longrightarrow> fill_columns cs = Inl KeyError"
proof (induction cs)
  case Nil
  then show ?case by simp
next
  case (Cons a cs)
  then show ?case
    by (auto split: sum.splits dest: fill_series_Inl fill_columns_Inl)
qed

lemma fill_series_length: "fill_series s = Inr s' \<Longrightarrow> series_length s' = series_length s"
  by (cases s) (auto simp: fillna_def split: list.splits)

lemma fill_columns_shape:
  "fill_columns cs = Inr cs' \<Longrightarrow>
   map (\<lambda>c. (label c, series_length (cells c))) cs' =
   map (\<lambda>c. (label c, series_length (cells c))) cs"
  by (induction cs arbitrary: cs') (auto split: sum.splits dest: fill_series_length)

lemma fill_na_shape: "fill_na df = Inr df' \<Longrightarrow> shape df' = shape df"
  by (auto simp: fill_na_def shape_def split: sum.splits dest: fill_columns_shape)

lemma fill_na_column:
  assumes "fill_na df = Inr df'" and "j < length (columns df)"
  shows "fill_series (cells (columns df ! j)) = Inr (cells (columns df' ! j))"
proof -
  from assms(1) obtain cs' where cs': "fill_columns (columns df) = Inr cs'" "columns df' = cs'"
    by (auto simp: fill_na_def split: sum.splits)
  from fill_columns_Inr [OF cs'(1)] assms(2) show ?thesis
    by (auto simp: cs'(2) list_all2_conv_all_nth)
qed

lemma fill_series_object:
  assumes "fill_series (ObjectSeries cs) = Inr s"
  shows "\<exists>v. v \<in> set (dropna cs) \<and>
           (\<forall>w. count_list (dropna cs) w \<le> count_list (dropna cs) v) \<and>
           (\<forall>w. count_list (dropna cs) w = count_list (dropna cs) v \<longrightarrow> v \<le> w) \<and>
           s = ObjectSeries (map (\<lambda>c. case c of None \<Rightarrow> Some v | Some x \<Rightarrow> Some x) cs)"
proof -
  from assms obtain v vs where m: "mode cs = v # vs" and s: "s = ObjectSeries (fillna v cs)"
    by (auto split: list.splits)
  show ?thesis
    using mode_Cons [OF m] s by (auto simp: fillna_def)
qed

lemma fill_series_no_missing:
  assumes "cs \<noteq> []" and "\<forall>x \<in> set cs. x \<noteq> None"
  shows "fill_series (ObjectSeries cs) = Inr (ObjectSeries cs)"
proof -
  have "dropna cs \<noteq> []" using assms by (cases cs) (auto simp: dropna_empty_iff)
  then obtain v vs where "mode cs = v # vs"
    by (cases "mode cs") (auto simp: mode_empty_iff)
  moreover have "fillna v cs = cs"
    using assms(2) by (auto simp: fillna_def intro!: map_idI split: option.splits)
  ultimately show ?thesis by simp
qed

lemma fill_columns_unchanged:
  "(\<forall>c \<in> set cs. fill_series (cells c) = Inr (cells c)) \<Longrightarrow> fill_columns cs = Inr cs"
  by (induction cs) auto

text \<open>The frames of the examples, evaluated.\<close>

lemma normalize_race_frame: "normalize b race_frame = Inr race_frame_normalized"
  by (cases b)
    (simp_all add: normalize_def race_frame_def race_frame_normalized_def remap_columns
      remap_value_Some target_map_def null_map_def age_map_def fill_na_def mode_def
      dropna_def List.map_filter_def fillna_def)

lemma remap_race_frame_race:
  "cells (columns (remap b race_frame) ! 0) =
     ObjectSeries [Some ''Caucasian'', Some ''AfricanAmerican'', None]"
  by (cases b)
    (simp_all add: race_frame_def remap_columns remap_value_Some target_map_def null_map_def
      age_map_def)

section \<open>The claims on the normalizer\<close>

text \<open>
  C3. Each remap is applied to the whole table, and the three are applied in the order
  label tokens, sentinel token, age buckets: every column of the remapped frame is the
  column of the input at the same place, its text cells looked up in \<open>target_map\<close>, then in
  \<open>null_map\<close>, then in \<open>age_map\<close> (with \<open>downcast\<close>, an object column left without text
  becomes a float column of NaN); the numeric columns and the row labels are as they were.
  On a text cell the three look-ups amount to one look-up in the three dicts together.
\<close>

theorem remap_whole_table_in_order:
  "index (remap downcast df) = index df \<and>
   columns (remap downcast df) =
     map (\<lambda>c. c\<lparr>cells :=
            (case cells c of
               NumericSeries ns \<Rightarrow> NumericSeries ns
             | ObjectSeries cs \<Rightarrow>
                 (if downcast
                  then infer_objects (ObjectSeries (map (\<lambda>x. replace_value age_map
                         (replace_value null_map (replace_value target_map x))) cs))
                  else ObjectSeries (map (\<lambda>x. replace_value age_map
                         (replace_value null_map (replace_value target_map x))) cs)))\<rparr>)
       (columns df) \<and>
   (\<forall>s. replace_value age_map (replace_value null_map (replace_value target_map (Some s))) =
        (case map_of (target_map @ null_map @ age_map) s of
           None \<Rightarrow> Some s
         | Some v \<Rightarrow> v)) \<and>
   replace_value age_map (replace_value null_map (replace_value target_map None)) = None"
proof -
  have "remap_series downcast s =
          (case s of
             NumericSeries ns \<Rightarrow> NumericSeries ns
           | ObjectSeries cs \<Rightarrow>
               (if downcast
                then infer_objects (ObjectSeries (map (\<lambda>x. replace_value age_map
                       (replace_value null_map (replace_value target_map x))) cs))
                else ObjectSeries (map (\<lambda>x. replace_value age_map
                       (replace_value null_map (replace_value target_map x))) cs)))"
    for s :: "'b series"
    by (cases s) (simp_all add: remap_value_fun)
  then have cols: "columns (remap downcast df) =
     map (\<lambda>c. c\<lparr>cells :=
            (case cells c of
               NumericSeries ns \<Rightarrow> NumericSeries ns
             | ObjectSeries cs \<Rightarrow>
                 (if downcast
                  then infer_objects (ObjectSeries (map (\<lambda>x. replace_value age_map
                         (replace_value null_map (replace_value target_map x))) cs))
                  else ObjectSeries (map (\<lambda>x. replace_value age_map
                         (replace_value null_map (replace_value target_map x))) cs)))\<rparr>)
       (columns df)"
    by (simp add: remap_columns)
  have idx: "index (remap downcast df) = index df"
    by (simp add: remap_columns)
  have look: "\<forall>s. replace_value age_map
        (replace_value null_map (replace_value target_map (Some s))) =
        (case map_of (target_map @ null_map @ age_map) s of
           None \<Rightarrow> Some s
         | Some v \<Rightarrow> v)"
    using remap_value_Some by (simp add: remap_value_def)
  have missing:
    "replace_value age_map (replace_value null_map (replace_value target_map None)) = None"
    by (simp add: replace_value_None)
  show ?thesis
    by (rule conjI [OF idx conjI [OF cols conjI [OF look missing]]])
qed

text \<open>
  C4. The label remap sends \<open>NO\<close>, \<open><30\<close>, \<open>>30\<close> to \<open>1\<close>, \<open>2\<close>, \<open>3\<close>, one to one and onto,
  and leaves every other cell as it is.
\<close>

theorem target_map_bijection:
  "replace_value target_map (Some ''NO'') = Some ''1'' \<and>
   replace_value target_map (Some ''<30'') = Some ''2'' \<and>
   replace_value target_map (Some ''>30'') = Some ''3'' \<and>
   bij_betw (\<lambda>s. replace_value target_map (Some s))
     {''NO'', ''<30'', ''>30''} {Some ''1'', Some ''2'', Some ''3''} \<and>
   (\<forall>c. c \<notin> {Some ''NO'', Some ''<30'', Some ''>30''} \<longrightarrow> replace_value target_map c = c)"
  by (auto simp: bij_betw_def inj_on_def replace_value_def target_map_def split: option.splits)

theorem target_map_bijection_witness:
  "Some ''Caucasian'' \<notin> {Some ''NO'', Some ''<30'', Some ''>30''} \<and>
   replace_value target_map (Some ''Caucasian'') = Some ''Caucasian'' \<and>
   replace_value target_map (Some ''>30'') = Some ''3''"
proof -
  have h: "Some ''Caucasian'' \<notin> {Some ''NO'', Some ''<30'', Some ''>30''}" by simp
  have all: "\<forall>c. c \<notin> {Some ''NO'', Some ''<30'', Some ''>30''} \<longrightarrow>
      replace_value target_map c = c"
    and gt: "replace_value target_map (Some ''>30'') = Some ''3''"
    using target_map_bijection by (rule conjunct2 [THEN conjunct2, THEN conjunct2, THEN conjunct2],
      rule conjunct2 [THEN conjunct2, THEN conjunct1])
  have "replace_value target_map (Some ''Caucasian'') = Some ''Caucasian''"
    by (rule all [rule_format, OF h])
  with h gt show ?thesis by (intro conjI)
qed

text \<open>
  C5. The age remap sends the \<open>k\<close>-th decade bucket, for \<open>k\<close> from 1 to 10, to the code
  \<open>k\<close> (as the code writes it: the decimal numeral of \<open>k\<close>, a string), one to one and onto,
  and leaves every other cell as it is.
\<close>

theorem age_map_ordinal:
  "age_map = map (\<lambda>k. (age_bucket k, Some (decimal k))) [1..<11] \<and>
   (\<forall>k \<in> {1..10}. replace_value age_map (Some (age_bucket k)) = Some (decimal k)) \<and>
   bij_betw (\<lambda>s. replace_value age_map (Some s))
     (age_bucket ` {1..10}) ((\<lambda>k. Some (decimal k)) ` {1..10}) \<and>
   (\<forall>c. c \<notin> Some ` age_bucket ` {1..10} \<longrightarrow> replace_value age_map c = c)"
proof -
  have range: "{1..10::nat} = {1, 2, 3, 4, 5, 6, 7, 8, 9, 10}" by auto arith
  have table: "age_map = map (\<lambda>k. (age_bucket k, Some (decimal k))) [1..<11]"
    by (simp add: age_map_def age_bucket_def decimal.simps upt_rec)
  have each: "\<forall>k \<in> {1..10}. replace_value age_map (Some (age_bucket k)) = Some (decimal k)"
    unfolding range
    by (simp add: replace_value_def age_map_def age_bucket_def decimal.simps)
  have bij: "bij_betw (\<lambda>s. replace_value age_map (Some s))
     (age_bucket ` {1..10}) ((\<lambda>k. Some (decimal k)) ` {1..10})"
    unfolding range bij_betw_def inj_on_def
    by (simp add: replace_value_def age_map_def age_bucket_def decimal.simps)
  have rest: "\<forall>c. c \<notin> Some ` age_bucket ` {1..10} \<longrightarrow> replace_value age_map c = c"
    unfolding range
    by (auto simp: replace_value_def age_map_def age_bucket_def decimal.simps
        split: option.splits)
  show ?thesis
    by (rule conjI [OF table conjI [OF each conjI [OF bij rest]]])
qed

theorem age_map_ordinal_witness:
  "age_bucket 3 = ''[20-30)'' \<and> decimal 3 = ''3'' \<and>
   replace_value age_map (Some (age_bucket 3)) = Some (decimal 3) \<and>
   replace_value age_map (Some ''Caucasian'') = Some ''Caucasian''"
proof -
  have k: "(3::nat) \<in> {1..10}" by simp
  have other: "Some ''Caucasian'' \<notin> Some ` age_bucket ` {1..10}"
  proof -
    have "{1..10::nat} = {1, 2, 3, 4, 5, 6, 7, 8, 9, 10}" by auto arith
    then show ?thesis by (simp add: age_bucket_def decimal.simps)
  qed
  have each: "\<forall>k \<in> {1..10}. replace_value age_map (Some (age_bucket k)) = Some (decimal k)"
    and rest: "\<forall>c. c \<notin> Some ` age_bucket ` {1..10} \<longrightarrow> replace_value age_map c = c"
    using age_map_ordinal by (rule conjunct2 [THEN conjunct1],
      rule conjunct2 [THEN conjunct2, THEN conjunct2])
  have a: "replace_value age_map (Some (age_bucket 3)) = Some (decimal 3)"
    by (rule each [rule_format, OF k])
  have b: "replace_value age_map (Some ''Caucasian'') = Some ''Caucasian''"
    by (rule rest [rule_format, OF other])
  have c: "age_bucket 3 = ''[20-30)''" and d: "decimal 3 = ''3''"
    by (simp_all add: age_bucket_def decimal.simps)
  from c d a b show ?thesis by (intro conjI)
qed

text \<open>
  C8. The normalizer changes cells only: the remapped frame has the shape of the input,
  and so has the frame that normalization returns, whenever it returns one (it raises
  instead when an object column is left with no observed value).
\<close>

theorem normalize_preserves_shape:
  "shape (remap downcast df) = shape df \<and>
   (\<forall>df'. normalize downcast df = Inr df' \<longrightarrow>
      shape df' = shape df \<and> index df' = index df \<and>
      map label (columns df') = map label (columns df))"
proof (rule conjI)
  show "shape (remap downcast df) = shape df" by (rule shape_remap)
next
  show "\<forall>df'. normalize downcast df = Inr df' \<longrightarrow>
      shape df' = shape df \<and> index df' = index df \<and>
      map label (columns df') = map label (columns df)"
  proof (intro allI impI)
    fix df' assume "normalize downcast df = Inr df'"
    then have "fill_na (remap downcast df) = Inr df'" by (simp only: normalize_def)
    then have "shape df' = shape (remap downcast df)" by (rule fill_na_shape)
    then have s: "shape df' = shape df" by (simp only: shape_remap)
    then have i: "index df' = index df" by (simp add: shape_def)
    from s have "map fst (snd (shape df')) = map fst (snd (shape df))" by (simp only:)
    then have l: "map label (columns df') = map label (columns df)"
      by (simp add: shape_def comp_def)
    from s i l show "shape df' = shape df \<and> index df' = index df \<and>
      map label (columns df') = map label (columns df)" by (intro conjI)
  qed
qed

theorem normalize_preserves_shape_witness:
  "normalize True race_frame = Inr race_frame_normalized \<and>
   shape race_frame_normalized = shape race_frame \<and>
   shape race_frame =
     ([2278392, 149190, 64410],
      [(''race'', 3), (''age'', 3), (''time_in_hospital'', 3), (''readmitted'', 3)])"
proof -
  have h: "normalize True race_frame = Inr race_frame_normalized"
    by (rule normalize_race_frame)
  have "\<forall>df'. normalize True race_frame = Inr df' \<longrightarrow>
      shape df' = shape race_frame \<and> index df' = index race_frame \<and>
      map label (columns df') = map label (columns race_frame)"
    using normalize_preserves_shape [of True race_frame] by (rule conjunct2)
  from this [rule_format, OF h] have "shape race_frame_normalized = shape race_frame"
    by (rule conjunct1)
  moreover have "shape race_frame =
     ([2278392, 149190, 64410],
      [(''race'', 3), (''age'', 3), (''time_in_hospital'', 3), (''readmitted'', 3)])"
    by (simp add: shape_def race_frame_def)
  ultimately show ?thesis using h by simp
qed

text \<open>
  C2, as the code has it. For every column that is an object column when the loop of
  lines 68 and 69 reaches it, each missing cell is replaced by one value \<open>v\<close>: an observed
  value of the column that no value occurs more often than, and the smallest of the values
  that occur as often (in the order of Python's strings), since \<open>mode()\<close> is sorted.
\<close>

theorem imputation_most_frequent_smallest:
  assumes "normalize downcast df = Inr df'"
    and "j < length (columns df)"
    and "cells (columns (remap downcast df) ! j) = ObjectSeries cs"
  shows "\<exists>v. v \<in> set (dropna cs) \<and>
           (\<forall>w. count_list (dropna cs) w \<le> count_list (dropna cs) v) \<and>
           (\<forall>w. count_list (dropna cs) w = count_list (dropna cs) v \<longrightarrow> v \<le> w) \<and>
           cells (columns df' ! j) =
             ObjectSeries (map (\<lambda>c. case c of None \<Rightarrow> Some v | Some x \<Rightarrow> Some x) cs)"
proof -
  have len: "j < length (columns (remap downcast df))"
    using assms(2) by (simp add: remap_columns)
  from assms(1) have "fill_na (remap downcast df) = Inr df'" by (simp add: normalize_def)
  from fill_na_column [OF this len] assms(3)
  have "fill_series (ObjectSeries cs :: 'b series) = Inr (cells (columns df' ! j))" by simp
  from fill_series_object [OF this] show ?thesis .
qed

theorem imputation_most_frequent_smallest_witness:
  "normalize True race_frame = Inr race_frame_normalized \<and>
   0 < length (columns race_frame) \<and>
   cells (columns (remap True race_frame) ! 0) =
     ObjectSeries [Some ''Caucasian'', Some ''AfricanAmerican'', None] \<and>
   (\<exists>v. v \<in> set (dropna [Some ''Caucasian'', Some ''AfricanAmerican'', None]) \<and>
      (\<forall>w. count_list (dropna [Some ''Caucasian'', Some ''AfricanAmerican'', None]) w
            \<le> count_list (dropna [Some ''Caucasian'', Some ''AfricanAmerican'', None]) v) \<and>
      (\<forall>w. count_list (dropna [Some ''Caucasian'', Some ''AfricanAmerican'', None]) w
            = count_list (dropna [Some ''Caucasian'', Some ''AfricanAmerican'', None]) v
            \<longrightarrow> v \<le> w) \<and>
      cells (columns race_frame_normalized ! 0) =
        ObjectSeries (map (\<lambda>c. case c of None \<Rightarrow> Some v | Some x \<Rightarrow> Some x)
          [Some ''Caucasian'', Some ''AfricanAmerican'', None]))"
proof -
  have h1: "normalize True race_frame = Inr race_frame_normalized"
    by (rule normalize_race_frame)
  have h2: "0 < length (columns race_frame)" by (simp add: race_frame_def)
  have h3: "cells (columns (remap True race_frame) ! 0) =
     ObjectSeries [Some ''Caucasian'', Some ''AfricanAmerican'', None]"
    by (rule remap_race_frame_race)
  from h1 h2 h3 imputation_most_frequent_smallest [OF h1 h2 h3]
  show ?thesis by (intro conjI)
qed

text \<open>
  C2, as the claim has it, fails: with \<open>Caucasian\<close> and \<open>AfricanAmerican\<close> observed once
  each, the first value met is \<open>Caucasian\<close>, and the missing cell becomes
  \<open>AfricanAmerican\<close>.
\<close>

theorem first_encountered_tie_counterexample:
  "cells (columns (remap True race_frame) ! 0) =
     ObjectSeries [Some ''Caucasian'', Some ''AfricanAmerican'', None] \<and>
   cells (columns (remap False race_frame) ! 0) =
     ObjectSeries [Some ''Caucasian'', Some ''AfricanAmerican'', None] \<and>
   first_encountered_mode [Some ''Caucasian'', Some ''AfricanAmerican'', None]
     = Some ''Caucasian'' \<and>
   normalize True race_frame = Inr race_frame_normalized \<and>
   normalize False race_frame = Inr race_frame_normalized \<and>
   cells (columns race_frame_normalized ! 0) =
     ObjectSeries (fillna ''AfricanAmerican''
       [Some ''Caucasian'', Some ''AfricanAmerican'', None]) \<and>
   cells (columns race_frame_normalized ! 0) \<noteq>
     ObjectSeries (fillna ''Caucasian''
       [Some ''Caucasian'', Some ''AfricanAmerican'', None])"
proof -
  have "first_encountered_mode [Some ''Caucasian'', Some ''AfricanAmerican'', None]
     = Some ''Caucasian''"
    by (simp add: first_encountered_mode_def dropna_def List.map_filter_def)
  moreover have "cells (columns race_frame_normalized ! 0) =
     ObjectSeries (fillna ''AfricanAmerican''
       [Some ''Caucasian'', Some ''AfricanAmerican'', None])"
    by (simp add: race_frame_normalized_def fillna_def)
  moreover have "cells (columns race_frame_normalized ! 0) \<noteq>
     ObjectSeries (fillna ''Caucasian''
       [Some ''Caucasian'', Some ''AfricanAmerican'', None])"
    by (simp add: race_frame_normalized_def fillna_def)
  ultimately show ?thesis
    using remap_race_frame_race [of True] remap_race_frame_race [of False]
      normalize_race_frame [of True] normalize_race_frame [of False]
    by (intro conjI)
qed

text \<open>
  C6, as the code has it. An object column whose cells are all missing or the sentinel
  \<open>?\<close> makes the normalizer raise the \<open>KeyError\<close> of \<open>mode()[0]\<close>, whenever the column is
  still an object column at line 68: without the downcasting of \<open>replace\<close>, or in a frame
  with no rows.
\<close>

theorem missing_object_column_raises_KeyError:
  assumes "c \<in> set (columns df)"
    and "cells c = ObjectSeries cs"
    and "\<forall>x \<in> set cs. x = None \<or> x = Some ''?''"
    and "\<not> downcast \<or> cs = []"
  shows "normalize downcast df = Inl KeyError"
proof -
  let ?c = "c\<lparr>cells := remap_series downcast (cells c)\<rparr>"
  have none: "\<forall>x \<in> set cs. remap_value x = None"
    using assms(3) by (auto simp: remap_value_def replace_value_def target_map_def null_map_def)
  have obj: "cells ?c = ObjectSeries (map remap_value cs)"
    using assms(2,4) by auto
  have "dropna (map remap_value cs) = []"
    using none by (simp add: dropna_empty_iff)
  then have "fill_series (cells ?c) = Inl KeyError"
    by (simp add: obj mode_empty_iff [THEN iffD2])
  moreover have "?c \<in> set (columns (remap downcast df))"
    using assms(1) by (simp add: remap_columns)
  ultimately have "fill_columns (columns (remap downcast df)) = Inl KeyError"
    by (rule fill_columns_fails [rotated])
  then show ?thesis by (simp add: normalize_def fill_na_def)
qed

theorem missing_object_column_raises_KeyError_witness:
  "hd (columns unknown_weight_frame) \<in> set (columns unknown_weight_frame) \<and>
   cells (hd (columns unknown_weight_frame)) = ObjectSeries [Some ''?'', Some ''?''] \<and>
   normalize False unknown_weight_frame = Inl KeyError"
proof -
  have h1: "hd (columns unknown_weight_frame) \<in> set (columns unknown_weight_frame)"
    by (simp add: unknown_weight_frame_def)
  have h2: "cells (hd (columns unknown_weight_frame)) = ObjectSeries [Some ''?'', Some ''?'']"
    by (simp add: unknown_weight_frame_def)
  have h3: "\<forall>x \<in> set [Some ''?'', Some ''?'']. x = None \<or> x = Some ''?''" by simp
  have h4: "\<not> False \<or> [Some ''?'', Some ''?''] = []" by simp
  from h1 h2 missing_object_column_raises_KeyError [OF h1 h2 h3 h4]
  show ?thesis by (intro conjI)
qed

text \<open>
  C6, as the claim has it, fails: on a frame whose only column holds \<open>?\<close> in every row, the
  normalizer raises \<open>KeyError\<close> without the downcasting, and with it returns the column as a
  float column of NaN; in neither case an \<open>EmptyColumnError\<close>.
\<close>

theorem EmptyColumnError_counterexample:
  "normalize False unknown_weight_frame = Inl KeyError \<and>
   normalize False unknown_weight_frame \<noteq> Inl (Raised ''EmptyColumnError'') \<and>
   normalize True unknown_weight_frame =
     Inr \<lparr>index = [2278392, 149190],
          columns = [\<lparr>label = ''weight'', cells = NumericSeries [None, None]\<rparr>]\<rparr> \<and>
   normalize True unknown_weight_frame \<noteq> Inl (Raised ''EmptyColumnError'')"
  by (simp add: normalize_def unknown_weight_frame_def remap_columns remap_value_Some
      target_map_def null_map_def age_map_def fill_na_def mode_def dropna_def
      List.map_filter_def)

text \<open>
  C9, as the code has it. A frame that is already normalized, and whose object columns
  have at least one row each, is returned as it is.
\<close>

theorem normalize_noop_on_normalized:
  assumes "already_normalized df"
    and "\<forall>c \<in> set (columns df). cells c \<noteq> ObjectSeries []"
  shows "normalize downcast df = Inr df"
proof -
  have "fill_series (cells c) = Inr (cells c)" if "c \<in> set (columns df)" for c
  proof (cases "cells c")
    case (NumericSeries ns)
    then show ?thesis by simp
  next
    case (ObjectSeries cs)
    with that assms(1)
    have "\<forall>x \<in> set cs. case x of None \<Rightarrow> False | Some s \<Rightarrow> s \<notin> set raw_tokens"
      by (force simp: already_normalized_def)
    then have "\<forall>x \<in> set cs. x \<noteq> None" by (auto split: option.splits)
    moreover have "cs \<noteq> []" using that assms(2) ObjectSeries by auto
    ultimately have "fill_series (ObjectSeries cs :: 'b series) = Inr (ObjectSeries cs)"
      by (rule fill_series_no_missing [rotated])
    then show ?thesis by (simp only: ObjectSeries)
  qed
  then have "fill_columns (columns df) = Inr (columns df)"
    by (simp add: fill_columns_unchanged)
  then show ?thesis
    by (simp add: normalize_def remap_normalized [OF assms(1)] fill_na_def)
qed

theorem normalize_noop_on_normalized_witness:
  "already_normalized race_frame_normalized \<and>
   normalize True race_frame_normalized = Inr race_frame_normalized \<and>
   normalize False race_frame_normalized = Inr race_frame_normalized"
proof -
  have h1: "already_normalized race_frame_normalized"
    by (simp add: already_normalized_def race_frame_normalized_def raw_tokens_def
        target_map_def null_map_def age_map_def)
  have h2: "\<forall>c \<in> set (columns race_frame_normalized). cells c \<noteq> ObjectSeries []"
    by (simp add: race_frame_normalized_def)
  from h1 normalize_noop_on_normalized [OF h1 h2, of True]
    normalize_noop_on_normalized [OF h1 h2, of False]
  show ?thesis by (intro conjI)
qed

text \<open>
  C9, as the claim has it, fails on a frame with no rows: an object column with no cell
  holds no raw token and no missing cell, and the normalizer raises \<open>KeyError\<close>.
\<close>

theorem no_rows_counterexample:
  "already_normalized no_rows_frame \<and>
   normalize True no_rows_frame = Inl KeyError \<and>
   normalize False no_rows_frame = Inl KeyError \<and>
   normalize True no_rows_frame \<noteq> Inr no_rows_frame \<and>
   normalize False no_rows_frame \<noteq> Inr no_rows_frame"
  by (simp add: already_normalized_def normalize_def no_rows_frame_def remap_columns
      fill_na_def mode_def dropna_def List.map_filter_def)

end
